theory Spec2Isabelle
  imports Complex_Main "HOL-Library.Char_ord" "HOL-Library.List_Lexorder"
begin

section \<open>ODR-DabMux management server: data model\<close>

text \<open>
  The embedding follows \<^verbatim>\<open>src/ManagementServer.cpp\<close>. The header
  \<^verbatim>\<open>ManagementServer.h\<close> is not part of the sources at hand, so the numeric
  macros it defines are collected in the record \<open>mgmt_consts\<close> and every function
  that uses one takes that record as its first argument.
\<close>

record mgmt_consts =
  INPUT_COUNTER_RESET_TIME :: int
  INPUT_NODATA_TIMEOUT :: int
  INPUT_UNSTABLE_THRESHOLD :: int
  INPUT_AUDIO_LEVEL_SILENCE_COUNT :: int
  MIN_FILL_RESET :: int
  MAX_FILL_RESET :: int
  PACKAGE_NAME :: string
  PACKAGE_VERSION :: string

text \<open>The enumeration \<^verbatim>\<open>input_state_t\<close>.\<close>

datatype input_state_t = NoData | Unstable | Silence | Streaming

text \<open>
  The members of class \<^verbatim>\<open>InputStat\<close> that the source file reads or writes.
  Times are \<^verbatim>\<open>time_t\<close> seconds; all numbers are unbounded integers here.
\<close>

record InputStat =
  m_name :: string
  min_fill_buffer :: int
  max_fill_buffer :: int
  peak_left :: int
  peak_right :: int
  num_underruns :: int
  num_overruns :: int
  m_buffer_empty :: bool
  m_time_last_buffer_nonempty :: int
  m_time_last_event :: int
  m_glitch_counter :: int
  m_silence_counter :: int

text \<open>
  A \<^verbatim>\<open>boost::property_tree::ptree\<close>: a data string and an ordered list of
  keyed children. \<^verbatim>\<open>clear()\<close> leaves the empty tree.
\<close>

datatype ptree = PTree string "(string \<times> ptree) list"

definition empty_ptree :: ptree where
  "empty_ptree = PTree [] []"

datatype log_level = debug | info | warn | error

text \<open>
  The server object together with the objects its registry points to.
  \<open>m_inputStats\<close> is the \<^verbatim>\<open>std::map<std::string, InputStat*>\<close> in iteration
  order (ascending keys); a pointer is an address into \<open>heap\<close>.
  \<open>m_notified\<close> counts the calls of \<^verbatim>\<open>m_condition.notify_one()\<close> and
  \<open>etiLog\<close> collects what is written to the log.
\<close>

record mgmt_state =
  m_inputStats :: "(string \<times> nat) list"
  heap :: "nat \<Rightarrow> InputStat"
  m_pt :: ptree
  m_pending :: bool
  m_retrieve_pending :: bool
  m_running :: bool
  m_notified :: nat
  etiLog :: "(log_level \<times> string) list"

section \<open>The ordered map\<close>

text \<open>
  \<^verbatim>\<open>std::map\<close> operations on the key-ordered entry list: \<^verbatim>\<open>count\<close>,
  \<^verbatim>\<open>m[k] = v\<close> and \<^verbatim>\<open>erase(k)\<close>. Keys compare as \<^verbatim>\<open>std::string\<close>
  does, lexicographically by byte value.
\<close>

definition map_count :: "(string \<times> 'v) list \<Rightarrow> string \<Rightarrow> nat" where
  "map_count m k = (case map_of m k of None \<Rightarrow> 0 | Some v \<Rightarrow> 1)"

fun map_assign :: "(string \<times> 'v) list \<Rightarrow> string \<Rightarrow> 'v \<Rightarrow> (string \<times> 'v) list" where
  "map_assign [] k v = [(k, v)]"
| "map_assign ((k', v') # m) k v =
     (if k < k' then (k, v) # (k', v') # m
      else if k = k' then (k, v) # m
      else (k', v') # map_assign m k v)"

definition map_erase :: "(string \<times> 'v) list \<Rightarrow> string \<Rightarrow> (string \<times> 'v) list" where
  "map_erase m k = filter (\<lambda>e. fst e \<noteq> k) m"

section \<open>Registry operations\<close>

definition registerInput :: "nat \<Rightarrow> mgmt_state \<Rightarrow> mgmt_state" where
  \<open>registerInput is st =
     (let name = m_name (heap st is) in
      if map_count (m_inputStats st) name = 1
      then st\<lparr>etiLog := etiLog st @
              [(error, ''Double registration in MGMT Server with id '' @ [CHR 0x27] @ name @ [CHR 0x27])]\<rparr>
      else st\<lparr>m_inputStats := map_assign (m_inputStats st) name is\<rparr>)\<close>

definition unregisterInput :: "string \<Rightarrow> mgmt_state \<Rightarrow> mgmt_state" where
  "unregisterInput name st =
     (if map_count (m_inputStats st) name = 1
      then st\<lparr>m_inputStats := map_erase (m_inputStats st) name\<rparr>
      else st)"

definition isInputRegistered :: "string \<Rightarrow> mgmt_state \<Rightarrow> bool \<times> mgmt_state" where
  \<open>isInputRegistered name st =
     (if map_count (m_inputStats st) name = 0
      then (False, st\<lparr>etiLog := etiLog st @
              [(error, ''Management Server: id '' @ [CHR 0x27] @ name @ [CHR 0x27] @
                       '' does was not registered'')]\<rparr>)
      else (True, st))\<close>

text \<open>
  The loop of \<^verbatim>\<open>getStatConfigJSON\<close>: \<open>i\<close> is the loop counter, the list holds
  the entries still to be visited.
\<close>

fun config_loop :: "nat \<Rightarrow> (string \<times> nat) list \<Rightarrow> string" where
  \<open>config_loop i [] = []\<close>
| \<open>config_loop i (e # es) =
     (if i > 0 then '', '' else []) @ '' "'' @ fst e @ ''" '' @ config_loop (i + 1) es\<close>

definition getStatConfigJSON :: "mgmt_state \<Rightarrow> string \<times> mgmt_state" where
  \<open>getStatConfigJSON st =
     (''{ "config" : [\<newline>'' @ config_loop 0 (m_inputStats st) @ ''] }\<newline>'', st)\<close>

section \<open>Encoding and classification of one input\<close>

text \<open>Decimal output of \<^verbatim>\<open>operator<<\<close> for integers.\<close>

fun show_nat :: "nat \<Rightarrow> string" where
  "show_nat n =
     (if n < 10 then [''0123456789'' ! n]
      else show_nat (n div 10) @ [''0123456789'' ! (n mod 10)])"

declare show_nat.simps [simp del]

definition show_int :: "int \<Rightarrow> string" where
  "show_int i = (if i < 0 then ''-'' @ show_nat (nat (- i)) else show_nat (nat i))"

text \<open>
  \<^verbatim>\<open>round\<close> of the C library rounds halfway cases away from zero.
\<close>

definition c_round :: "real \<Rightarrow> int" where
  "c_round x = (if 0 \<le> x then \<lfloor>x + 1 / 2\<rfloor> else \<lceil>x - 1 / 2\<rceil>)"

definition int16_max :: int where
  "int16_max = 32767"

text \<open>
  The conversion to dB in \<^verbatim>\<open>encodeValuesJSON\<close>:
  \<^verbatim>\<open>peak ? round(20*log10((double)peak / int16_max)) : -90\<close>.
  The \<^verbatim>\<open>double\<close> arithmetic is taken as exact real arithmetic. For a negative
  peak the C expression yields a NaN; no statement below concerns that case.
\<close>

definition peak_to_dB :: "int \<Rightarrow> int" where
  "peak_to_dB peak =
     (if peak \<noteq> 0 then c_round (20 * log 10 (real_of_int peak / real_of_int int16_max))
      else - 90)"

definition encodeValuesJSON :: "InputStat \<Rightarrow> string" where
  \<open>encodeValuesJSON s =
     (let dB_l = peak_to_dB (peak_left s);
          dB_r = peak_to_dB (peak_right s)
      in ''{ "inputstat" : {'' @
         ''"min_fill": '' @ show_int (min_fill_buffer s) @ '', '' @
         ''"max_fill": '' @ show_int (max_fill_buffer s) @ '', '' @
         ''"peak_left": '' @ show_int dB_l @ '', '' @
         ''"peak_right": '' @ show_int dB_r @ '', '' @
         ''"num_underruns": '' @ show_int (num_underruns s) @ '', '' @
         ''"num_overruns": '' @ show_int (num_overruns s) @
         '' } }'')\<close>

text \<open>
  \<^verbatim>\<open>determineState\<close>; \<open>now\<close> is the value of \<^verbatim>\<open>time(NULL)\<close>. The function
  may write \<open>m_glitch_counter\<close>, so it returns the object as well.
  The local variable \<^verbatim>\<open>state\<close> is declared without an initial value and
  returned at the end: its content is \<open>None\<close> until a branch assigns it, and
  the first component of the result is its content at the \<^verbatim>\<open>return\<close>.
\<close>

definition determineState ::
  "mgmt_consts \<Rightarrow> int \<Rightarrow> InputStat \<Rightarrow> input_state_t option \<times> InputStat" where
  "determineState c now s =
     (let state = (None :: input_state_t option);
          s1 = (if now - m_time_last_event s > 60 * INPUT_COUNTER_RESET_TIME c
                then s\<lparr>m_glitch_counter := 0\<rparr> else s);
          state = (if m_buffer_empty s1 \<and>
                      now - m_time_last_buffer_nonempty s1 > INPUT_NODATA_TIMEOUT c
                   then Some NoData
                   else if m_glitch_counter s1 \<ge> INPUT_UNSTABLE_THRESHOLD c
                   then Some Unstable
                   else (if m_silence_counter s1 > INPUT_AUDIO_LEVEL_SILENCE_COUNT c
                         then Some Silence
                         else Some Streaming))
      in (state, s1))"

text \<open>
  The \<^verbatim>\<open>switch\<close> of \<^verbatim>\<open>encodeStateJSON\<close> on the value returned by
  \<^verbatim>\<open>determineState\<close>, with its \<^verbatim>\<open>default\<close> branch for a value that is
  none of the four enumerators.
\<close>

definition state_label :: "input_state_t option \<Rightarrow> string" where
  \<open>state_label x =
     (if x = Some NoData then ''"NoData"''
      else if x = Some Unstable then ''"Unstable"''
      else if x = Some Silence then ''"Silent"''
      else if x = Some Streaming then ''"Streaming"''
      else ''"Unknown"'')\<close>

definition encodeStateJSON :: "mgmt_consts \<Rightarrow> int \<Rightarrow> InputStat \<Rightarrow> string \<times> InputStat" where
  \<open>encodeStateJSON c now s =
     (let (x, s1) = determineState c now s
      in (''{ "state" : '' @ state_label x @ '' }'', s1))\<close>

text \<open>
  Modelled from the spec: \<^verbatim>\<open>InputStat::reset()\<close> is defined in the header, which
  is missing. By the specification it returns the fill extrema to their sentinel
  values, the two event counts to 0 and the peaks to 0, and leaves the glitch and
  silence counters and the timestamps alone.
\<close>

definition reset :: "mgmt_consts \<Rightarrow> InputStat \<Rightarrow> InputStat" where
  "reset c s = s\<lparr>min_fill_buffer := MIN_FILL_RESET c,
                 max_fill_buffer := MAX_FILL_RESET c,
                 peak_left := 0, peak_right := 0,
                 num_underruns := 0, num_overruns := 0\<rparr>"

section \<open>Value and state reports\<close>

fun values_loop ::
  "mgmt_consts \<Rightarrow> nat \<Rightarrow> (string \<times> nat) list \<Rightarrow> (nat \<Rightarrow> InputStat) \<Rightarrow> string \<times> (nat \<Rightarrow> InputStat)" where
  \<open>values_loop c i [] h = ([], h)\<close>
| \<open>values_loop c i (e # es) h =
     (let stats = snd e;
          out = (if i > 0 then '' ,\<newline>'' else []) @
                '' "'' @ fst e @ ''" : '' @ encodeValuesJSON (h stats);
          h1 = h(stats := reset c (h stats));
          (rest, h2) = values_loop c (i + 1) es h1
      in (out @ rest, h2))\<close>

definition getValuesJSON :: "mgmt_consts \<Rightarrow> mgmt_state \<Rightarrow> string \<times> mgmt_state" where
  \<open>getValuesJSON c st =
     (let (body, h) = values_loop c 0 (m_inputStats st) (heap st)
      in (''{ "values" : {\<newline>'' @ body @ ''}\<newline>}\<newline>'', st\<lparr>heap := h\<rparr>))\<close>

fun state_loop ::
  "mgmt_consts \<Rightarrow> int \<Rightarrow> nat \<Rightarrow> (string \<times> nat) list \<Rightarrow> (nat \<Rightarrow> InputStat) \<Rightarrow> string \<times> (nat \<Rightarrow> InputStat)" where
  \<open>state_loop c now i [] h = ([], h)\<close>
| \<open>state_loop c now i (e # es) h =
     (let stats = snd e;
          (enc, s1) = encodeStateJSON c now (h stats);
          out = (if i > 0 then '' ,\<newline>'' else []) @ '' "'' @ fst e @ ''" : '' @ enc;
          h1 = h(stats := reset c s1);
          (rest, h2) = state_loop c now (i + 1) es h1
      in (out @ rest, h2))\<close>

definition getStateJSON :: "mgmt_consts \<Rightarrow> int \<Rightarrow> mgmt_state \<Rightarrow> string \<times> mgmt_state" where
  \<open>getStateJSON c now st =
     (let (body, h) = state_loop c now 0 (m_inputStats st) (heap st)
      in (''{\<newline>'' @ body @ ''}\<newline>'', st\<lparr>heap := h\<rparr>))\<close>

section \<open>The configuration tree handshake\<close>

definition retrieve_new_ptree :: "ptree \<Rightarrow> mgmt_state \<Rightarrow> bool \<times> ptree \<times> mgmt_state" where
  "retrieve_new_ptree pt st =
     (if m_retrieve_pending st
      then (True, m_pt st, st\<lparr>m_retrieve_pending := False, m_notified := m_notified st + 1\<rparr>)
      else (False, pt, st))"

definition update_ptree :: "ptree \<Rightarrow> mgmt_state \<Rightarrow> mgmt_state" where
  "update_ptree pt st =
     (if m_running st
      then st\<lparr>m_pt := pt, m_pending := False, m_notified := m_notified st + 1\<rparr>
      else st)"

text \<open>
  What the engine thread does while the serving thread sleeps in
  \<^verbatim>\<open>m_condition.wait\<close>: it publishes a tree or polls for one.
\<close>

datatype engine_action = Publish ptree | Poll

definition engine_step :: "engine_action \<Rightarrow> mgmt_state \<Rightarrow> mgmt_state" where
  "engine_step a st =
     (case a of Publish pt \<Rightarrow> update_ptree pt st
              | Poll \<Rightarrow> snd (snd (retrieve_new_ptree empty_ptree st)))"

text \<open>
  The loop \<^verbatim>\<open>while (m_pending && !m_retrieve_pending) m_condition.wait(lock)\<close>.
  The list is the engine's whole future activity; the waiter looks at the
  condition again after each action. Once the list is used up nothing can change
  the flags any more and the wait never returns, which is the result \<open>None\<close>.
\<close>

fun wait_loop :: "engine_action list \<Rightarrow> mgmt_state \<Rightarrow> mgmt_state option" where
  "wait_loop [] st = (if m_pending st \<and> \<not> m_retrieve_pending st then None else Some st)"
| "wait_loop (a # as) st =
     (if m_pending st \<and> \<not> m_retrieve_pending st then wait_loop as (engine_step a st)
      else Some st)"

section \<open>Serving one connection\<close>

text \<open>
  What arrives on the socket: the error code of the accept, the command line,
  the return value of the second \<^verbatim>\<open>read_until\<close> and the outcome of Boost's
  \<^verbatim>\<open>read_json\<close> on the bytes received (\<open>Inl\<close> the text of the exception it
  throws, \<open>Inr\<close> the tree it builds). \<^verbatim>\<open>read_json\<close> builds the tree apart and
  swaps it into its argument only when parsing has succeeded.
\<close>

record connection =
  boost_error :: bool
  in_message :: string
  json_length :: nat
  json_parse :: "string + ptree"

text \<open>
  What is written to the socket: plain text, or a tree serialised by
  \<^verbatim>\<open>write_json\<close>.
\<close>

datatype sock_write = Text string | JsonDoc ptree

definition welcome_msg :: "mgmt_consts \<Rightarrow> string" where
  \<open>welcome_msg c =
     ''{ "service": "'' @ PACKAGE_NAME c @ '' '' @ PACKAGE_VERSION c @ '' MGMT Server" }\<newline>''\<close>

definition add_log :: "log_level \<Rightarrow> string \<Rightarrow> mgmt_state \<Rightarrow> mgmt_state" where
  "add_log l msg st = st\<lparr>etiLog := etiLog st @ [(l, msg)]\<rparr>"

text \<open>
  \<^verbatim>\<open>handle_accept\<close>. The result is what was written to the socket and the state
  afterwards, or \<open>None\<close> when the handler never returns. \<open>engine\<close> is the engine's
  activity during a \<^verbatim>\<open>getptree\<close> wait. Errors of the socket reads and writes
  are ignored by the source. \<^verbatim>\<open>length\<close> is a \<^verbatim>\<open>size_t\<close>, so the last branch
  of the \<^verbatim>\<open>setptree\<close> case ("Error JSON reception") cannot be taken. An
  exception of \<^verbatim>\<open>read_json\<close> leaves the cleared tree and is logged by the
  \<^verbatim>\<open>catch\<close> block. \<open>PACKAGE_VERSION\<close> stands for whichever version macro is
  compiled in.
\<close>

definition handle_accept ::
  "mgmt_consts \<Rightarrow> int \<Rightarrow> engine_action list \<Rightarrow> connection \<Rightarrow> mgmt_state
     \<Rightarrow> (sock_write list \<times> mgmt_state) option" where
  \<open>handle_accept c now engine conn st =
     (if boost_error conn
      then Some ([], add_log error ''MGMT: Error accepting connection'' st)
      else
        let st1 = add_log info ''RC: Accepted'' st;
            w = [Text (welcome_msg c)]
        in if in_message conn = ''config''
           then (let (json, st2) = getStatConfigJSON st1 in Some (w @ [Text json], st2))
           else if in_message conn = ''values''
           then (let (json, st2) = getValuesJSON c st1 in Some (w @ [Text json], st2))
           else if in_message conn = ''state''
           then (let (json, st2) = getStateJSON c now st1 in Some (w @ [Text json], st2))
           else if in_message conn = ''setptree''
           then (if json_length conn > 0
                 then (case json_parse conn of
                         Inr pt \<Rightarrow> Some (w, st1\<lparr>m_pt := pt\<rparr>)
                       | Inl what \<Rightarrow>
                           Some (w, add_log error (''MGMT server caught exception: '' @ what)
                                      (st1\<lparr>m_pt := empty_ptree\<rparr>)))
                 else Some (w, add_log warn ''MGMT: No JSON data received'' st1))
           else if in_message conn = ''getptree''
           then (case wait_loop engine (st1\<lparr>m_pending := True\<rparr>) of
                   None \<Rightarrow> None
                 | Some st2 \<Rightarrow> Some (w @ [JsonDoc (m_pt st2)], st2))
           else Some (w @ [Text ''Invalid command\<newline>''], st1))\<close>

section \<open>Descriptions used in the statements\<close>

text \<open>
  The invariant of the entry list: keys strictly ascending, hence without
  repetition.
\<close>

definition map_inv :: "(string \<times> 'v) list \<Rightarrow> bool" where
  "map_inv m = sorted_wrt (<) (map fst m)"

text \<open>
  A history of registry calls, run in order, and the set of ids that such a
  history leaves registered: a registration adds the name of the object, a
  removal takes the id away.
\<close>

datatype registry_call = Register nat | Unregister string

fun run_calls :: "registry_call list \<Rightarrow> mgmt_state \<Rightarrow> mgmt_state" where
  "run_calls [] st = st"
| "run_calls (Register is # cs) st = run_calls cs (registerInput is st)"
| "run_calls (Unregister name # cs) st = run_calls cs (unregisterInput name st)"

fun registered_ids :: "(nat \<Rightarrow> InputStat) \<Rightarrow> registry_call list \<Rightarrow> string set \<Rightarrow> string set" where
  "registered_ids h [] S = S"
| "registered_ids h (Register is # cs) S = registered_ids h cs (insert (m_name (h is)) S)"
| "registered_ids h (Unregister name # cs) S = registered_ids h cs (S - {name})"

text \<open>
  The text of the id report for a given list of ids, and of the values report
  for inputs whose counters are all at their reset values.
\<close>

fun ids_text :: "string list \<Rightarrow> string" where
  \<open>ids_text [] = []\<close>
| \<open>ids_text [k] = '' "'' @ k @ ''" ''\<close>
| \<open>ids_text (k # k' # ks) = '' "'' @ k @ ''" '' @ '', '' @ ids_text (k' # ks)\<close>

definition config_text :: "string list \<Rightarrow> string" where
  \<open>config_text ks = ''{ "config" : [\<newline>'' @ ids_text ks @ ''] }\<newline>''\<close>

definition reset_values_json :: "mgmt_consts \<Rightarrow> string" where
  \<open>reset_values_json c =
     ''{ "inputstat" : {"min_fill": '' @ show_int (MIN_FILL_RESET c) @
     '', "max_fill": '' @ show_int (MAX_FILL_RESET c) @
     '', "peak_left": -90, "peak_right": -90, "num_underruns": 0, "num_overruns": 0 } }''\<close>

fun values_text :: "mgmt_consts \<Rightarrow> string list \<Rightarrow> string" where
  \<open>values_text c [] = []\<close>
| \<open>values_text c [k] = '' "'' @ k @ ''" : '' @ reset_values_json c\<close>
| \<open>values_text c (k # k' # ks) =
     '' "'' @ k @ ''" : '' @ reset_values_json c @ '' ,\<newline>'' @ values_text c (k' # ks)\<close>

definition values_report :: "mgmt_consts \<Rightarrow> string list \<Rightarrow> string" where
  \<open>values_report c ks = ''{ "values" : {\<newline>'' @ values_text c ks @ ''}\<newline>}\<newline>''\<close>

text \<open>
  The two conditions of the classifier: the glitch counter as it stands after
  the decay step, and the test for the NoData state.
\<close>

definition decayed_glitch :: "mgmt_consts \<Rightarrow> int \<Rightarrow> InputStat \<Rightarrow> int" where
  "decayed_glitch c now s =
     (if now - m_time_last_event s > 60 * INPUT_COUNTER_RESET_TIME c then 0
      else m_glitch_counter s)"

definition no_data_due :: "mgmt_consts \<Rightarrow> int \<Rightarrow> InputStat \<Rightarrow> bool" where
  "no_data_due c now s \<longleftrightarrow>
     m_buffer_empty s \<and> now - m_time_last_buffer_nonempty s > INPUT_NODATA_TIMEOUT c"

section \<open>Example inputs\<close>

text \<open>
  Concrete constants, objects, server states and requests on which the
  statements below are evaluated.
\<close>

definition example_consts :: mgmt_consts where
  "example_consts = \<lparr>INPUT_COUNTER_RESET_TIME = 30, INPUT_NODATA_TIMEOUT = 30,
     INPUT_UNSTABLE_THRESHOLD = 3, INPUT_AUDIO_LEVEL_SILENCE_COUNT = 100,
     MIN_FILL_RESET = - 1, MAX_FILL_RESET = 0,
     PACKAGE_NAME = ''ODR-DabMux'', PACKAGE_VERSION = ''0.7.4''\<rparr>"

definition example_stat :: "string \<Rightarrow> InputStat" where
  "example_stat name = \<lparr>m_name = name, min_fill_buffer = 12, max_fill_buffer = 40,
     peak_left = 1200, peak_right = 900, num_underruns = 2, num_overruns = 1,
     m_buffer_empty = True, m_time_last_buffer_nonempty = 0, m_time_last_event = 0,
     m_glitch_counter = 5, m_silence_counter = 200\<rparr>"

definition streaming_stat :: InputStat where
  "streaming_stat = \<lparr>m_name = ''eth2'', min_fill_buffer = 12, max_fill_buffer = 40,
     peak_left = 1200, peak_right = 900, num_underruns = 0, num_overruns = 0,
     m_buffer_empty = False, m_time_last_buffer_nonempty = 90, m_time_last_event = 0,
     m_glitch_counter = 5, m_silence_counter = 0\<rparr>"

definition example_heap :: "nat \<Rightarrow> InputStat" where
  "example_heap a = (if a = 0 then example_stat ''eth0''
                     else if a = 1 then example_stat ''eth1''
                     else example_stat ''eth0'')"

definition example_state :: mgmt_state where
  "example_state = \<lparr>m_inputStats = [], heap = example_heap, m_pt = PTree [] [(''general'', PTree ''1'' [])],
     m_pending = False, m_retrieve_pending = False, m_running = False, m_notified = 0,
     etiLog = []\<rparr>"

definition example_registered :: mgmt_state where
  "example_registered = example_state\<lparr>m_inputStats := [(''eth0'', 0), (''eth1'', 1)]\<rparr>"

definition example_calls :: "registry_call list" where
  "example_calls = [Register 1, Register 0, Register 2, Unregister ''eth1'']"

definition example_doc :: ptree where
  "example_doc = PTree [] [(''general'', PTree [] [(''nbframes'', PTree ''10'' [])])]"

definition setptree_conn :: "nat \<Rightarrow> string + ptree \<Rightarrow> connection" where
  "setptree_conn n r = \<lparr>boost_error = False, in_message = ''setptree'', json_length = n,
     json_parse = r\<rparr>"

definition getptree_conn :: connection where
  "getptree_conn = \<lparr>boost_error = False, in_message = ''getptree'', json_length = 0,
     json_parse = Inl []\<rparr>"

lemmas example_defs = example_state_def example_consts_def example_doc_def setptree_conn_def
  getptree_conn_def empty_ptree_def

section \<open>Facts about the ordered map and the registry\<close>

lemma map_count_one_iff: "map_count m k = 1 \<longleftrightarrow> k \<in> fst ` set m"
proof -
  have "map_of m k \<noteq> None \<longleftrightarrow> k \<in> fst ` set m"
    by (simp add: map_of_eq_None_iff)
  then show ?thesis
    by (cases "map_of m k") (simp_all add: map_count_def)
qed

lemma map_count_Suc0_iff: "map_count m k = Suc 0 \<longleftrightarrow> k \<in> fst ` set m"
  using map_count_one_iff[of m k] by simp

lemma keys_map_assign: "fst ` set (map_assign m k v) = insert k (fst ` set m)"
  by (induction m k v rule: map_assign.induct) auto

lemma map_inv_map_assign: "map_inv m \<Longrightarrow> map_inv (map_assign m k v)"
proof (induction m k v rule: map_assign.induct)
  case (1 k v)
  then show ?case by (simp add: map_inv_def)
next
  case (2 k' v' m k v)
  show ?case
  proof (cases "k < k'")
    case True
    with 2 show ?thesis by (auto simp: map_inv_def)
  next
    case False
    show ?thesis
    proof (cases "k = k'")
      case True
      with 2 show ?thesis by (auto simp: map_inv_def)
    next
      case ne: False
      with False have lt: "k' < k" by simp
      from 2(2) have tl: "map_inv m" by (simp add: map_inv_def)
      from 2(1)[OF False ne tl] have ih: "map_inv (map_assign m k v)" .
      have "\<forall>x \<in> fst ` set (map_assign m k v). k' < x"
        using 2(2) lt by (auto simp: keys_map_assign map_inv_def)
      with ih False ne show ?thesis by (simp add: map_inv_def)
    qed
  qed
qed

lemma keys_map_erase: "fst ` set (map_erase m k) = fst ` set m - {k}"
  by (auto simp: map_erase_def)

lemma map_inv_map_erase: "map_inv m \<Longrightarrow> map_inv (map_erase m k)"
  unfolding map_inv_def map_erase_def
  by (induction m) auto

lemma map_inv_sorted_distinct:
  "map_inv m \<Longrightarrow> sorted (map fst m) \<and> distinct (map fst m)"
  unfolding map_inv_def by (simp add: strict_sorted_iff)

lemma count_list_distinct: "distinct xs \<Longrightarrow> x \<in> set xs \<Longrightarrow> count_list xs x = 1"
  by (induction xs) auto

lemma registerInput_frame:
  "heap (registerInput is st) = heap st"
  by (simp add: registerInput_def Let_def)

lemma unregisterInput_frame:
  "heap (unregisterInput k st) = heap st"
  by (simp add: unregisterInput_def)

lemma registerInput_inv:
  "map_inv (m_inputStats st) \<Longrightarrow> map_inv (m_inputStats (registerInput is st))"
  by (simp add: registerInput_def Let_def map_inv_map_assign)

lemma unregisterInput_inv:
  "map_inv (m_inputStats st) \<Longrightarrow> map_inv (m_inputStats (unregisterInput k st))"
  by (simp add: unregisterInput_def map_inv_map_erase)

lemma registerInput_keys:
  "fst ` set (m_inputStats (registerInput is st)) =
     insert (m_name (heap st is)) (fst ` set (m_inputStats st))"
  by (auto simp: registerInput_def Let_def keys_map_assign map_count_Suc0_iff)

lemma unregisterInput_keys:
  "fst ` set (m_inputStats (unregisterInput k st)) = fst ` set (m_inputStats st) - {k}"
  by (auto simp: unregisterInput_def keys_map_erase map_count_Suc0_iff)

lemma run_calls_inv:
  "map_inv (m_inputStats st) \<Longrightarrow>
     map_inv (m_inputStats (run_calls cs st)) \<and>
     heap (run_calls cs st) = heap st \<and>
     fst ` set (m_inputStats (run_calls cs st)) =
       registered_ids (heap st) cs (fst ` set (m_inputStats st))"
proof (induction cs st rule: run_calls.induct)
  case (1 st)
  then show ?case by simp
next
  case (2 "is" cs st)
  from 2(2) have "map_inv (m_inputStats (registerInput is st))" by (rule registerInput_inv)
  from 2(1)[OF this] show ?case
    by (simp add: registerInput_frame registerInput_keys)
next
  case (3 name cs st)
  from 3(2) have "map_inv (m_inputStats (unregisterInput name st))" by (rule unregisterInput_inv)
  from 3(1)[OF this] show ?case
    by (simp add: unregisterInput_frame unregisterInput_keys)
qed

lemma config_loop_pos: "i > 0 \<Longrightarrow> config_loop i (e # es) = '', '' @ ids_text (map fst (e # es))"
proof (induction es arbitrary: i e)
  case Nil
  then show ?case by simp
next
  case (Cons e' es)
  have "config_loop (i + 1) (e' # es) = '', '' @ ids_text (map fst (e' # es))"
    by (rule Cons.IH) simp
  with Cons.prems show ?case by simp
qed

lemma config_loop_zero: "config_loop 0 es = ids_text (map fst es)"
proof (cases es)
  case Nil
  then show ?thesis by simp
next
  case (Cons e es')
  show ?thesis
  proof (cases es')
    case Nil
    with Cons show ?thesis by simp
  next
    case (Cons e' es'')
    have "config_loop (0 + 1) (e' # es'') = '', '' @ ids_text (map fst (e' # es''))"
      by (rule config_loop_pos) simp
    with Cons \<open>es = e # es'\<close> show ?thesis by simp
  qed
qed

lemma getStatConfigJSON_text:
  "getStatConfigJSON st = (config_text (map fst (m_inputStats st)), st)"
  by (simp add: getStatConfigJSON_def config_text_def config_loop_zero)

section \<open>Facts about the values report\<close>

lemma show_int_0: "show_int 0 = ''0''"
  by (simp add: show_int_def show_nat.simps[of 0])

lemma show_int_m1: "show_int (- 1) = ''-1''"
  by (simp add: show_int_def show_nat.simps[of "Suc 0"])

lemma show_int_m90: "show_int (- 90) = ''-90''"
  by (simp add: show_int_def show_nat.simps[of 90] show_nat.simps[of 9])

lemma reset_idem: "reset c (reset c s) = reset c s"
  by (simp add: reset_def)

lemma encode_reset: "encodeValuesJSON (reset c s) = reset_values_json c"
  by (simp add: encodeValuesJSON_def reset_def reset_values_json_def peak_to_dB_def
      show_int_0 show_int_m90)

lemma values_loop_heap:
  "snd (values_loop c i es h) p = (if p \<in> snd ` set es then reset c (h p) else h p)"
proof (induction es arbitrary: i h)
  case Nil
  then show ?case by simp
next
  case (Cons e es)
  let ?h1 = "h(snd e := reset c (h (snd e)))"
  have "snd (values_loop c i (e # es) h) = snd (values_loop c (i + 1) es ?h1)"
    by (simp add: Let_def split: prod.splits)
  then show ?case
    by (simp add: Cons.IH reset_idem)
qed

lemma values_loop_step_reset:
  assumes "reset c (h (snd e)) = h (snd e)"
  shows "values_loop c i (e # es) h =
           ((if i > 0 then '' ,\<newline>'' else []) @ '' \"'' @ fst e @ ''\" : '' @ reset_values_json c @
              fst (values_loop c (i + 1) es h),
            snd (values_loop c (i + 1) es h))"
proof -
  from assms have up: "h(snd e := reset c (h (snd e))) = h"
    by simp
  from encode_reset[of c "h (snd e)"] assms
  have enc: "encodeValuesJSON (h (snd e)) = reset_values_json c"
    by simp
  show ?thesis
    by (simp add: Let_def up enc split: prod.splits)
qed

lemma values_loop_pos:
  assumes "\<forall>p \<in> snd ` set (e # es). reset c (h p) = h p" and "i > 0"
  shows "fst (values_loop c i (e # es) h) = '' ,\<newline>'' @ values_text c (map fst (e # es))"
  using assms
proof (induction es arbitrary: i e)
  case Nil
  then have "reset c (h (snd e)) = h (snd e)" by simp
  from values_loop_step_reset[where h=h and e=e and c=c and i=i and es="[]", OF this] Nil.prems(2) show ?case by simp
next
  case (Cons e' es)
  from Cons.prems(1) have a: "reset c (h (snd e)) = h (snd e)" by simp
  from Cons.prems(1) have b: "\<forall>p \<in> snd ` set (e' # es). reset c (h p) = h p" by simp
  have "fst (values_loop c (i + 1) (e' # es) h) = '' ,\<newline>'' @ values_text c (map fst (e' # es))"
    by (rule Cons.IH[OF b]) simp
  with values_loop_step_reset[where h=h and e=e and c=c and i=i and es="e' # es", OF a] Cons.prems(2) show ?case by simp
qed

lemma values_loop_zero:
  assumes "\<forall>p \<in> snd ` set es. reset c (h p) = h p"
  shows "fst (values_loop c 0 es h) = values_text c (map fst es)"
proof (cases es)
  case Nil
  then show ?thesis by simp
next
  case (Cons e es')
  from assms Cons have a: "reset c (h (snd e)) = h (snd e)" by simp
  show ?thesis
  proof (cases es')
    case Nil
    with values_loop_step_reset[where h=h and e=e and c=c and i=0 and es="[]", OF a] Cons show ?thesis by simp
  next
    case (Cons e' es'')
    from assms \<open>es = e # es'\<close> Cons
    have b: "\<forall>p \<in> snd ` set (e' # es''). reset c (h p) = h p" by simp
    have "fst (values_loop c (0 + 1) (e' # es'') h) = '' ,\<newline>'' @ values_text c (map fst (e' # es''))"
      by (rule values_loop_pos[OF b]) simp
    with values_loop_step_reset[where h=h and e=e and c=c and i=0 and es="e' # es''", OF a] Cons \<open>es = e # es'\<close> show ?thesis by simp
  qed
qed

lemma getValuesJSON_fields:
  "m_inputStats (snd (getValuesJSON c st)) = m_inputStats st \<and>
   heap (snd (getValuesJSON c st)) = snd (values_loop c 0 (m_inputStats st) (heap st)) \<and>
   fst (getValuesJSON c st) =
     ''{ \"values\" : {\<newline>'' @ fst (values_loop c 0 (m_inputStats st) (heap st)) @ ''}\<newline>}\<newline>''"
  by (simp add: getValuesJSON_def split: prod.splits)

lemma getValuesJSON_heap:
  "heap (snd (getValuesJSON c st)) p =
     (if p \<in> snd ` set (m_inputStats st) then reset c (heap st p) else heap st p)"
  by (simp add: getValuesJSON_fields values_loop_heap)

lemma getValuesJSON_second:
  "fst (getValuesJSON c (snd (getValuesJSON c st))) = values_report c (map fst (m_inputStats st))"
proof -
  let ?st1 = "snd (getValuesJSON c st)"
  have "\<forall>p \<in> snd ` set (m_inputStats st). reset c (heap ?st1 p) = heap ?st1 p"
    by (simp add: getValuesJSON_heap reset_idem)
  moreover have "m_inputStats ?st1 = m_inputStats st"
    by (simp add: getValuesJSON_fields)
  ultimately have "\<forall>p \<in> snd ` set (m_inputStats ?st1). reset c (heap ?st1 p) = heap ?st1 p"
    by simp
  from values_loop_zero[OF this] show ?thesis
    by (simp add: getValuesJSON_fields[of c ?st1] getValuesJSON_fields[of c st] values_report_def)
qed

lemma c_round_mono: "x \<le> y \<Longrightarrow> c_round x \<le> c_round y"
proof -
  assume xy: "x \<le> y"
  show ?thesis
  proof (cases "0 \<le> x")
    case True
    with xy have "0 \<le> y" by simp
    with True xy show ?thesis by (simp add: c_round_def floor_mono)
  next
    case False
    show ?thesis
    proof (cases "0 \<le> y")
      case True
      have "\<lceil>x - 1 / 2\<rceil> \<le> 0" using False by (simp add: ceiling_le_iff)
      moreover have "0 \<le> \<lfloor>y + 1 / 2\<rfloor>" using True by simp
      ultimately have "\<lceil>x - 1 / 2\<rceil> \<le> \<lfloor>y + 1 / 2\<rfloor>" by (rule order_trans)
      with False True show ?thesis by (simp add: c_round_def)
    next
      case y: False
      with False xy show ?thesis by (simp add: c_round_def ceiling_mono)
    qed
  qed
qed

section \<open>The configuration tree requests\<close>

text \<open>
  C1. A \<^verbatim>\<open>setptree\<close> request with a non-empty line that parses into
  \<open>example_doc\<close>, served in a state where \<open>m_retrieve_pending\<close> is false:
  the tree is replaced and nothing but the greeting is written, but
  \<open>m_retrieve_pending\<close> is still false afterwards and
  \<^verbatim>\<open>notify_one\<close> has not been called. The handler never assigns the flag
  that \<^verbatim>\<open>retrieve_new_ptree\<close> and the \<^verbatim>\<open>getptree\<close> wait both test.
\<close>

theorem setptree_flag_not_set:
  "handle_accept example_consts 0 [] (setptree_conn 40 (Inr example_doc)) example_state =
     Some ([Text (welcome_msg example_consts)],
           example_state\<lparr>m_pt := example_doc, m_retrieve_pending := False, m_notified := 0,
                          etiLog := [(info, ''RC: Accepted'')]\<rparr>)"
  by (simp add: handle_accept_def add_log_def example_defs)

text \<open>
  C2. \<^verbatim>\<open>setptree\<close> with \<open>example_doc\<close> followed by \<^verbatim>\<open>getptree\<close> with no
  engine activity: the first request returns, the second sets \<open>m_pending\<close>
  and then waits for ever, because \<open>m_retrieve_pending\<close> was left false.
\<close>

theorem setptree_getptree_blocks:
  "handle_accept example_consts 0 [] getptree_conn
     (example_state\<lparr>m_pt := example_doc, etiLog := [(info, ''RC: Accepted'')]\<rparr>) = None \<and>
   handle_accept example_consts 0 [] (setptree_conn 40 (Inr example_doc)) example_state =
     Some ([Text (welcome_msg example_consts)],
           example_state\<lparr>m_pt := example_doc, etiLog := [(info, ''RC: Accepted'')]\<rparr>)"
  by (simp add: handle_accept_def add_log_def example_defs)

text \<open>
  C3, as stated, fails: after a \<^verbatim>\<open>setptree\<close> whose line does not parse, the
  tree differs from the one held before the request.
\<close>

theorem setptree_malformed_changes_tree:
  "map_option (\<lambda>r. m_pt (snd r))
     (handle_accept example_consts 0 [] (setptree_conn 7 (Inl ''expected value'')) example_state)
   \<noteq> Some (m_pt example_state)"
  by (simp add: handle_accept_def add_log_def example_defs)

text \<open>
  C3, amended. When the line of a \<^verbatim>\<open>setptree\<close> request is non-empty and
  fails to parse, the tree is left empty, since it is cleared before parsing;
  the two flags, the registry and the notification count keep their values,
  the exception is logged and only the greeting is written.
\<close>

theorem setptree_malformed_clears_tree:
  assumes "\<not> boost_error conn" and "in_message conn = ''setptree''"
    and "json_length conn > 0" and "json_parse conn = Inl what"
  shows "handle_accept c now engine conn st =
           Some ([Text (welcome_msg c)],
                 st\<lparr>m_pt := empty_ptree,
                    etiLog := etiLog st @ [(info, ''RC: Accepted''),
                       (error, ''MGMT server caught exception: '' @ what)]\<rparr>)"
  using assms by (simp add: handle_accept_def add_log_def)

theorem setptree_malformed_clears_tree_witness:
  "\<not> boost_error (setptree_conn 7 (Inl ''expected value'')) \<and>
   in_message (setptree_conn 7 (Inl ''expected value'')) = ''setptree'' \<and>
   json_length (setptree_conn 7 (Inl ''expected value'')) > 0 \<and>
   json_parse (setptree_conn 7 (Inl ''expected value'')) = Inl ''expected value'' \<and>
   handle_accept example_consts 0 [] (setptree_conn 7 (Inl ''expected value'')) example_state =
     Some ([Text (welcome_msg example_consts)],
           example_state\<lparr>m_pt := empty_ptree,
              etiLog := etiLog example_state @ [(info, ''RC: Accepted''),
                (error, ''MGMT server caught exception: '' @ ''expected value'')]\<rparr>)"
proof -
  let ?conn = "setptree_conn 7 (Inl ''expected value'')"
  have h1: "\<not> boost_error ?conn" by (simp add: setptree_conn_def)
  have h2: "in_message ?conn = ''setptree''" by (simp add: setptree_conn_def)
  have h3: "json_length ?conn > 0" by (simp add: setptree_conn_def)
  have h4: "json_parse ?conn = Inl ''expected value''" by (simp add: setptree_conn_def)
  from setptree_malformed_clears_tree[OF h1 h2 h3 h4, of example_consts 0 "[]" example_state]
    h1 h2 h3 h4
  show ?thesis by blast
qed

text \<open>
  C10. While \<open>m_running\<close> is false, \<^verbatim>\<open>update_ptree\<close> changes nothing: tree,
  flags and notification count are as before.
\<close>

theorem update_ptree_stopped_noop:
  "\<not> m_running st \<Longrightarrow> update_ptree pt st = st"
  by (simp add: update_ptree_def)

theorem update_ptree_stopped_noop_witness:
  "\<not> m_running example_state \<and> update_ptree example_doc example_state = example_state"
proof -
  have h: "\<not> m_running example_state" by (simp add: example_state_def)
  from update_ptree_stopped_noop[OF h, of example_doc] h show ?thesis by blast
qed

section \<open>Classification and encoding\<close>

text \<open>
  C4. \<^verbatim>\<open>determineState\<close> first sets the glitch counter to 0 when the last
  event is older than the decay window and changes nothing else; then the
  state is NoData when the buffer is empty and the no-data timeout has passed,
  whatever the counters are; otherwise Unstable when the (decayed) glitch
  counter reaches the threshold; otherwise Silence when the silence counter is
  strictly above its threshold; otherwise Streaming.
\<close>

theorem determineState_priority:
  "snd (determineState c now s) = s\<lparr>m_glitch_counter := decayed_glitch c now s\<rparr> \<and>
   (no_data_due c now s \<longrightarrow> fst (determineState c now s) = Some NoData) \<and>
   (\<not> no_data_due c now s \<and> decayed_glitch c now s \<ge> INPUT_UNSTABLE_THRESHOLD c
      \<longrightarrow> fst (determineState c now s) = Some Unstable) \<and>
   (\<not> no_data_due c now s \<and> decayed_glitch c now s < INPUT_UNSTABLE_THRESHOLD c \<and>
    m_silence_counter s > INPUT_AUDIO_LEVEL_SILENCE_COUNT c
      \<longrightarrow> fst (determineState c now s) = Some Silence) \<and>
   (\<not> no_data_due c now s \<and> decayed_glitch c now s < INPUT_UNSTABLE_THRESHOLD c \<and>
    m_silence_counter s \<le> INPUT_AUDIO_LEVEL_SILENCE_COUNT c
      \<longrightarrow> fst (determineState c now s) = Some Streaming)"
  by (simp add: determineState_def decayed_glitch_def no_data_due_def Let_def)

theorem determineState_priority_witness:
  "no_data_due example_consts 100 (example_stat ''eth0'') \<and>
   m_glitch_counter (example_stat ''eth0'') \<ge> INPUT_UNSTABLE_THRESHOLD example_consts \<and>
   m_silence_counter (example_stat ''eth0'') > INPUT_AUDIO_LEVEL_SILENCE_COUNT example_consts \<and>
   fst (determineState example_consts 100 (example_stat ''eth0'')) = Some NoData \<and>
   fst (determineState example_consts 100 streaming_stat) = Some Unstable \<and>
   fst (determineState example_consts 2000 (streaming_stat\<lparr>m_silence_counter := 101\<rparr>)) = Some Silence \<and>
   fst (determineState example_consts 2000 streaming_stat) = Some Streaming \<and>
   m_glitch_counter (snd (determineState example_consts 2000 streaming_stat)) = 0"
proof -
  note A = determineState_priority[of example_consts 100 "example_stat ''eth0''"]
  note B = determineState_priority[of example_consts 100 streaming_stat]
  note C = determineState_priority[of example_consts 2000 "streaming_stat\<lparr>m_silence_counter := 101\<rparr>"]
  note D = determineState_priority[of example_consts 2000 streaming_stat]
  have a1: "no_data_due example_consts 100 (example_stat ''eth0'')"
    by (simp add: no_data_due_def example_consts_def example_stat_def)
  have a2: "m_glitch_counter (example_stat ''eth0'') \<ge> INPUT_UNSTABLE_THRESHOLD example_consts"
    and a3: "m_silence_counter (example_stat ''eth0'') > INPUT_AUDIO_LEVEL_SILENCE_COUNT example_consts"
    by (simp_all add: example_consts_def example_stat_def)
  from A a1 have a: "fst (determineState example_consts 100 (example_stat ''eth0'')) = Some NoData"
    by blast
  have "\<not> no_data_due example_consts 100 streaming_stat \<and>
        decayed_glitch example_consts 100 streaming_stat \<ge> INPUT_UNSTABLE_THRESHOLD example_consts"
    by (simp add: no_data_due_def decayed_glitch_def example_consts_def streaming_stat_def)
  with B have b: "fst (determineState example_consts 100 streaming_stat) = Some Unstable"
    by blast
  have "\<not> no_data_due example_consts 2000 (streaming_stat\<lparr>m_silence_counter := 101\<rparr>) \<and>
        decayed_glitch example_consts 2000 (streaming_stat\<lparr>m_silence_counter := 101\<rparr>)
          < INPUT_UNSTABLE_THRESHOLD example_consts \<and>
        m_silence_counter (streaming_stat\<lparr>m_silence_counter := 101\<rparr>)
          > INPUT_AUDIO_LEVEL_SILENCE_COUNT example_consts"
    by (simp add: no_data_due_def decayed_glitch_def example_consts_def streaming_stat_def)
  with C have c: "fst (determineState example_consts 2000 (streaming_stat\<lparr>m_silence_counter := 101\<rparr>)) = Some Silence"
    by blast
  have "\<not> no_data_due example_consts 2000 streaming_stat \<and>
        decayed_glitch example_consts 2000 streaming_stat < INPUT_UNSTABLE_THRESHOLD example_consts \<and>
        m_silence_counter streaming_stat \<le> INPUT_AUDIO_LEVEL_SILENCE_COUNT example_consts"
    by (simp add: no_data_due_def decayed_glitch_def example_consts_def streaming_stat_def)
  with D have d: "fst (determineState example_consts 2000 streaming_stat) = Some Streaming"
    by blast
  from D have "snd (determineState example_consts 2000 streaming_stat) =
      streaming_stat\<lparr>m_glitch_counter := decayed_glitch example_consts 2000 streaming_stat\<rparr>"
    by blast
  then have e: "m_glitch_counter (snd (determineState example_consts 2000 streaming_stat)) = 0"
    by (simp add: decayed_glitch_def example_consts_def streaming_stat_def)
  from a1 a2 a3 a b c d e show ?thesis by blast
qed

text \<open>
  C9. On every path \<^verbatim>\<open>determineState\<close> has assigned one of the four
  enumerators to \<^verbatim>\<open>state\<close> when it returns. The \<^verbatim>\<open>switch\<close> writes
  "Unknown" exactly for a value that is none of the four, so the label written
  by \<^verbatim>\<open>encodeStateJSON\<close> is one of "NoData", "Unstable", "Silent" and
  "Streaming", never "Unknown", and the state Silence is written as "Silent".
\<close>

theorem state_label_known:
  \<open>fst (determineState c now s) \<in>
     {Some NoData, Some Unstable, Some Silence, Some Streaming} \<and>
   state_label (fst (determineState c now s)) \<noteq> ''"Unknown"'' \<and>
   fst (encodeStateJSON c now s) \<in>
     {''{ "state" : "NoData" }'', ''{ "state" : "Unstable" }'',
      ''{ "state" : "Silent" }'', ''{ "state" : "Streaming" }''} \<and>
   (fst (determineState c now s) = Some Silence \<longrightarrow>
      fst (encodeStateJSON c now s) = ''{ "state" : "Silent" }'') \<and>
   (\<forall>x. state_label x = ''"Unknown"'' \<longleftrightarrow>
        x \<notin> {Some NoData, Some Unstable, Some Silence, Some Streaming})\<close>
proof -
  have assigned: "fst (determineState c now s) \<in>
      {Some NoData, Some Unstable, Some Silence, Some Streaming}"
    by (simp add: determineState_def Let_def)
  have default: \<open>\<forall>x. state_label x = ''"Unknown"'' \<longleftrightarrow>
        x \<notin> {Some NoData, Some Unstable, Some Silence, Some Streaming}\<close>
    by (simp add: state_label_def)
  from assigned default
  have known: \<open>state_label (fst (determineState c now s)) \<noteq> ''"Unknown"''\<close>
    by blast
  obtain x s1 where d: "determineState c now s = (x, s1)"
    by (cases "determineState c now s")
  with assigned have x: "x \<in> {Some NoData, Some Unstable, Some Silence, Some Streaming}"
    by simp
  have enc: \<open>fst (encodeStateJSON c now s) = ''{ "state" : '' @ state_label x @ '' }''\<close>
    by (simp add: encodeStateJSON_def d)
  from x have labels: \<open>fst (encodeStateJSON c now s) \<in>
     {''{ "state" : "NoData" }'', ''{ "state" : "Unstable" }'',
      ''{ "state" : "Silent" }'', ''{ "state" : "Streaming" }''}\<close>
    unfolding enc by (auto simp add: state_label_def)
  have silent: \<open>fst (determineState c now s) = Some Silence \<longrightarrow>
      fst (encodeStateJSON c now s) = ''{ "state" : "Silent" }''\<close>
    unfolding enc using d by (simp add: state_label_def)
  from assigned known labels silent default show ?thesis by blast
qed

theorem state_label_known_witness:
  \<open>fst (determineState example_consts 2000 (streaming_stat\<lparr>m_silence_counter := 101\<rparr>)) = Some Silence \<and>
   fst (encodeStateJSON example_consts 2000 (streaming_stat\<lparr>m_silence_counter := 101\<rparr>)) =
     ''{ "state" : "Silent" }''\<close>
proof -
  have h: "fst (determineState example_consts 2000 (streaming_stat\<lparr>m_silence_counter := 101\<rparr>)) = Some Silence"
    by (simp add: determineState_def example_consts_def streaming_stat_def)
  from state_label_known[of example_consts 2000 "streaming_stat\<lparr>m_silence_counter := 101\<rparr>"] h
  show ?thesis by blast
qed

text \<open>
  C7. With the floating-point operations read as operations on real numbers:
  a peak of 0 is encoded as -90, a peak of 32767 as 0, a positive peak \<open>p\<close> as
  the rounding of \<open>20 * log 10 (p / 32767)\<close>, and the encoding is monotone on
  positive peaks. \<^verbatim>\<open>encodeValuesJSON\<close> applies it to each channel on its own.
\<close>

theorem peak_to_dB_props:
  \<open>peak_to_dB 0 = - 90 \<and>
   peak_to_dB 32767 = 0 \<and>
   (0 < p \<longrightarrow> peak_to_dB p = c_round (20 * log 10 (real_of_int p / 32767))) \<and>
   (0 < p1 \<and> p1 < p2 \<longrightarrow> peak_to_dB p1 \<le> peak_to_dB p2) \<and>
   encodeValuesJSON s =
     ''{ "inputstat" : {"min_fill": '' @ show_int (min_fill_buffer s) @
     '', "max_fill": '' @ show_int (max_fill_buffer s) @
     '', "peak_left": '' @ show_int (peak_to_dB (peak_left s)) @
     '', "peak_right": '' @ show_int (peak_to_dB (peak_right s)) @
     '', "num_underruns": '' @ show_int (num_underruns s) @
     '', "num_overruns": '' @ show_int (num_overruns s) @ '' } }''\<close>
proof -
  have e: \<open>encodeValuesJSON s =
     ''{ "inputstat" : {"min_fill": '' @ show_int (min_fill_buffer s) @
     '', "max_fill": '' @ show_int (max_fill_buffer s) @
     '', "peak_left": '' @ show_int (peak_to_dB (peak_left s)) @
     '', "peak_right": '' @ show_int (peak_to_dB (peak_right s)) @
     '', "num_underruns": '' @ show_int (num_underruns s) @
     '', "num_overruns": '' @ show_int (num_overruns s) @ '' } }''\<close>
    by (simp add: encodeValuesJSON_def Let_def)
  have a: "peak_to_dB 0 = - 90" by (simp add: peak_to_dB_def)
  have b: "peak_to_dB 32767 = 0" by (simp add: peak_to_dB_def int16_max_def c_round_def)
  have c: "0 < p \<longrightarrow> peak_to_dB p = c_round (20 * log 10 (real_of_int p / 32767))"
    by (simp add: peak_to_dB_def int16_max_def)
  have d: "0 < p1 \<and> p1 < p2 \<longrightarrow> peak_to_dB p1 \<le> peak_to_dB p2"
  proof
    assume h: "0 < p1 \<and> p1 < p2"
    then have pos1: "0 < real_of_int p1 / 32767" and pos2: "0 < real_of_int p2 / 32767"
      by simp_all
    from h have "real_of_int p1 / 32767 \<le> real_of_int p2 / 32767"
      by (simp add: divide_right_mono)
    with pos1 pos2 have "log 10 (real_of_int p1 / 32767) \<le> log 10 (real_of_int p2 / 32767)"
      by (simp add: log_le_cancel_iff)
    then have "20 * log 10 (real_of_int p1 / 32767) \<le> 20 * log 10 (real_of_int p2 / 32767)"
      by simp
    then have "c_round (20 * log 10 (real_of_int p1 / 32767))
                 \<le> c_round (20 * log 10 (real_of_int p2 / 32767))"
      by (rule c_round_mono)
    with h show "peak_to_dB p1 \<le> peak_to_dB p2"
      by (simp add: peak_to_dB_def int16_max_def)
  qed
  from a b c d e show ?thesis by blast
qed

theorem peak_to_dB_props_witness:
  "(0::int) < 16384 \<and> (16384::int) < 32767 \<and>
   peak_to_dB 16384 = c_round (20 * log 10 (real_of_int 16384 / 32767)) \<and>
   peak_to_dB 16384 \<le> peak_to_dB 32767 \<and> peak_to_dB 32767 = 0 \<and> peak_to_dB 0 = - 90"
proof -
  have h1: "(0::int) < 16384" and h2: "(16384::int) < 32767" by simp_all
  from peak_to_dB_props[of 16384 16384 32767 streaming_stat] h1 h2 show ?thesis by blast
qed

section \<open>Registry reports\<close>

text \<open>
  C5. After \<^verbatim>\<open>getValuesJSON\<close>, every registered input has both event counts
  and both peaks at 0 and both fill extrema at their reset values, while its
  glitch counter, silence counter, timestamps, buffer flag and name are as
  before; a second call leaves these objects as they are and reports exactly
  the reset values for every id.
\<close>

theorem values_snapshot_destructive:
  "fst (getValuesJSON c (snd (getValuesJSON c st))) =
     values_report c (map fst (m_inputStats st)) \<and>
   (\<forall>e \<in> set (m_inputStats st).
      let s0 = heap st (snd e);
          s1 = heap (snd (getValuesJSON c st)) (snd e);
          s2 = heap (snd (getValuesJSON c (snd (getValuesJSON c st)))) (snd e)
      in num_underruns s1 = 0 \<and> num_overruns s1 = 0 \<and>
         peak_left s1 = 0 \<and> peak_right s1 = 0 \<and>
         min_fill_buffer s1 = MIN_FILL_RESET c \<and> max_fill_buffer s1 = MAX_FILL_RESET c \<and>
         m_glitch_counter s1 = m_glitch_counter s0 \<and>
         m_silence_counter s1 = m_silence_counter s0 \<and>
         m_time_last_event s1 = m_time_last_event s0 \<and>
         m_time_last_buffer_nonempty s1 = m_time_last_buffer_nonempty s0 \<and>
         m_buffer_empty s1 = m_buffer_empty s0 \<and>
         m_name s1 = m_name s0 \<and>
         s2 = s1)"
proof -
  let ?st1 = "snd (getValuesJSON c st)"
  let ?st2 = "snd (getValuesJSON c ?st1)"
  have reg: "m_inputStats ?st1 = m_inputStats st" by (simp add: getValuesJSON_fields)
  have "\<And>e. e \<in> set (m_inputStats st) \<Longrightarrow>
          heap ?st1 (snd e) = reset c (heap st (snd e)) \<and> heap ?st2 (snd e) = heap ?st1 (snd e)"
  proof -
    fix e assume e: "e \<in> set (m_inputStats st)"
    then have m: "snd e \<in> snd ` set (m_inputStats st)" by (rule imageI)
    from m have a: "heap ?st1 (snd e) = reset c (heap st (snd e))"
      by (simp add: getValuesJSON_heap)
    from m reg have "heap ?st2 (snd e) = reset c (heap ?st1 (snd e))"
      by (simp add: getValuesJSON_heap[of c ?st1])
    with a have "heap ?st2 (snd e) = heap ?st1 (snd e)" by (simp add: reset_idem)
    with a show "heap ?st1 (snd e) = reset c (heap st (snd e)) \<and>
                 heap ?st2 (snd e) = heap ?st1 (snd e)" by simp
  qed
  then have "\<forall>e \<in> set (m_inputStats st).
      let s0 = heap st (snd e); s1 = heap ?st1 (snd e); s2 = heap ?st2 (snd e)
      in num_underruns s1 = 0 \<and> num_overruns s1 = 0 \<and>
         peak_left s1 = 0 \<and> peak_right s1 = 0 \<and>
         min_fill_buffer s1 = MIN_FILL_RESET c \<and> max_fill_buffer s1 = MAX_FILL_RESET c \<and>
         m_glitch_counter s1 = m_glitch_counter s0 \<and>
         m_silence_counter s1 = m_silence_counter s0 \<and>
         m_time_last_event s1 = m_time_last_event s0 \<and>
         m_time_last_buffer_nonempty s1 = m_time_last_buffer_nonempty s0 \<and>
         m_buffer_empty s1 = m_buffer_empty s0 \<and>
         m_name s1 = m_name s0 \<and>
         s2 = s1"
    by (simp add: Let_def reset_def)
  with getValuesJSON_second[of c st] show ?thesis by simp
qed

theorem values_snapshot_destructive_witness:
  "(''eth1'', 1) \<in> set (m_inputStats example_registered) \<and>
   num_underruns (heap example_registered 1) = 2 \<and>
   num_underruns (heap (snd (getValuesJSON example_consts example_registered)) 1) = 0 \<and>
   m_glitch_counter (heap (snd (getValuesJSON example_consts example_registered)) 1) = 5 \<and>
   fst (getValuesJSON example_consts (snd (getValuesJSON example_consts example_registered))) =
     ''{ \"values\" : {\<newline>'' @
     '' \"eth0\" : { \"inputstat\" : {\"min_fill\": -1, \"max_fill\": 0, \"peak_left\": -90, \"peak_right\": -90, \"num_underruns\": 0, \"num_overruns\": 0 } } ,\<newline>'' @
     '' \"eth1\" : { \"inputstat\" : {\"min_fill\": -1, \"max_fill\": 0, \"peak_left\": -90, \"peak_right\": -90, \"num_underruns\": 0, \"num_overruns\": 0 } }'' @
     ''}\<newline>}\<newline>''"
proof -
  note T = values_snapshot_destructive[of example_consts example_registered]
  have mem: "(''eth1'', 1) \<in> set (m_inputStats example_registered)"
    by (simp add: example_registered_def)
  have old: "num_underruns (heap example_registered 1) = 2"
     and g: "m_glitch_counter (heap example_registered 1) = 5"
    by (simp_all add: example_registered_def example_state_def example_heap_def example_stat_def)
  from T mem have
    "let s0 = heap example_registered (snd (''eth1'', 1::nat));
         s1 = heap (snd (getValuesJSON example_consts example_registered)) (snd (''eth1'', 1::nat))
     in num_underruns s1 = 0 \<and> m_glitch_counter s1 = m_glitch_counter s0"
    unfolding Let_def by blast
  with g have new: "num_underruns (heap (snd (getValuesJSON example_consts example_registered)) 1) = 0 \<and>
    m_glitch_counter (heap (snd (getValuesJSON example_consts example_registered)) 1) = 5"
    by (simp add: Let_def)
  have ids: "map fst (m_inputStats example_registered) = [''eth0'', ''eth1'']"
    by (simp add: example_registered_def)
  from T have "fst (getValuesJSON example_consts (snd (getValuesJSON example_consts example_registered))) =
     values_report example_consts (map fst (m_inputStats example_registered))" by blast
  then have rep: "fst (getValuesJSON example_consts (snd (getValuesJSON example_consts example_registered))) =
     values_report example_consts [''eth0'', ''eth1'']" by (simp only: ids)
  have text_eq: "values_report example_consts [''eth0'', ''eth1''] = ''{ \"values\" : {\<newline>'' @
     '' \"eth0\" : { \"inputstat\" : {\"min_fill\": -1, \"max_fill\": 0, \"peak_left\": -90, \"peak_right\": -90, \"num_underruns\": 0, \"num_overruns\": 0 } } ,\<newline>'' @
     '' \"eth1\" : { \"inputstat\" : {\"min_fill\": -1, \"max_fill\": 0, \"peak_left\": -90, \"peak_right\": -90, \"num_underruns\": 0, \"num_overruns\": 0 } }'' @
     ''}\<newline>}\<newline>''"
    by (simp add: values_report_def reset_values_json_def example_consts_def show_int_0 show_int_m1)
  from mem old new rep text_eq show ?thesis by simp
qed

text \<open>
  C6. Registering an object whose name is already a key leaves the entry list
  and the objects as they were and only appends the error message to the log.
  The id report produced afterwards is the text of the key list held before
  the call, in which that id occurs exactly once, and the key still maps to
  the object registered first.
\<close>

theorem register_duplicate_rejected:
  assumes "map_inv (m_inputStats st)"
    and "m_name (heap st is) \<in> fst ` set (m_inputStats st)"
  shows "registerInput is st =
           st\<lparr>etiLog := etiLog st @
                [(error, ''Double registration in MGMT Server with id '' @ [CHR 0x27] @
                         m_name (heap st is) @ [CHR 0x27])]\<rparr> \<and>
         m_inputStats (registerInput is st) = m_inputStats st \<and>
         heap (registerInput is st) = heap st \<and>
         count_list (map fst (m_inputStats (registerInput is st))) (m_name (heap st is)) = 1 \<and>
         fst (getStatConfigJSON (registerInput is st)) = fst (getStatConfigJSON st) \<and>
         fst (getStatConfigJSON (registerInput is st)) =
           config_text (map fst (m_inputStats st)) \<and>
         count_list (map fst (m_inputStats st)) (m_name (heap st is)) = 1 \<and>
         map_of (m_inputStats (registerInput is st)) (m_name (heap st is)) =
           map_of (m_inputStats st) (m_name (heap st is))"
proof -
  from assms(2) have c: "map_count (m_inputStats st) (m_name (heap st is)) = 1"
    by (simp add: map_count_Suc0_iff)
  then have r: "registerInput is st =
           st\<lparr>etiLog := etiLog st @
                [(error, ''Double registration in MGMT Server with id '' @ [CHR 0x27] @
                         m_name (heap st is) @ [CHR 0x27])]\<rparr>"
    by (simp add: registerInput_def Let_def)
  from map_inv_sorted_distinct[OF assms(1)] have "distinct (map fst (m_inputStats st))" by simp
  moreover from assms(2) have "m_name (heap st is) \<in> set (map fst (m_inputStats st))" by simp
  ultimately have once: "count_list (map fst (m_inputStats st)) (m_name (heap st is)) = 1"
    by (simp add: count_list_distinct)
  from r have same: "m_inputStats (registerInput is st) = m_inputStats st"
    and objs: "heap (registerInput is st) = heap st"
    by simp_all
  have report: "fst (getStatConfigJSON (registerInput is st)) =
      config_text (map fst (m_inputStats (registerInput is st)))"
    by (simp add: getStatConfigJSON_text)
  have before: "fst (getStatConfigJSON st) = config_text (map fst (m_inputStats st))"
    by (simp add: getStatConfigJSON_text)
  from r same objs once report before show ?thesis by simp
qed

theorem register_duplicate_rejected_witness:
  "map_inv (m_inputStats example_registered) \<and>
   m_name (heap example_registered 2) \<in> fst ` set (m_inputStats example_registered) \<and>
   m_inputStats (registerInput 2 example_registered) = [(''eth0'', 0), (''eth1'', 1)] \<and>
   count_list (map fst (m_inputStats (registerInput 2 example_registered))) ''eth0'' = 1 \<and>
   etiLog (registerInput 2 example_registered) =
     [(error, ''Double registration in MGMT Server with id '' @ [CHR 0x27] @ ''eth0'' @ [CHR 0x27])] \<and>
   fst (getStatConfigJSON (registerInput 2 example_registered)) =
     ''{ \"config\" : [\<newline> \"eth0\" ,  \"eth1\" ] }\<newline>'' \<and>
   map_of (m_inputStats (registerInput 2 example_registered)) ''eth0'' = Some 0"
proof -
  have h1: "map_inv (m_inputStats example_registered)"
    by (simp add: example_registered_def map_inv_def)
  have n: "m_name (heap example_registered 2) = ''eth0''"
    by (simp add: example_registered_def example_state_def example_heap_def example_stat_def)
  have h2: "m_name (heap example_registered 2) \<in> fst ` set (m_inputStats example_registered)"
    by (simp add: n) (simp add: example_registered_def)
  note T = register_duplicate_rejected[OF h1 h2]
  from T have a: "m_inputStats (registerInput 2 example_registered) = m_inputStats example_registered"
    by blast
  from T have b: "count_list (map fst (m_inputStats (registerInput 2 example_registered)))
                    (m_name (heap example_registered 2)) = 1"
    by blast
  from T have "registerInput 2 example_registered =
      example_registered\<lparr>etiLog := etiLog example_registered @
                [(error, ''Double registration in MGMT Server with id '' @ [CHR 0x27] @
                         m_name (heap example_registered 2) @ [CHR 0x27])]\<rparr>"
    by blast
  then have "etiLog (registerInput 2 example_registered) = etiLog example_registered @
                [(error, ''Double registration in MGMT Server with id '' @ [CHR 0x27] @
                         m_name (heap example_registered 2) @ [CHR 0x27])]"
    by simp
  then have c: "etiLog (registerInput 2 example_registered) =
     [(error, ''Double registration in MGMT Server with id '' @ [CHR 0x27] @ ''eth0'' @ [CHR 0x27])]"
    by (simp add: n) (simp add: example_registered_def example_state_def)
  from a have a': "m_inputStats (registerInput 2 example_registered) = [(''eth0'', 0), (''eth1'', 1)]"
    by (simp add: example_registered_def)
  from b n have b': "count_list (map fst (m_inputStats (registerInput 2 example_registered))) ''eth0'' = 1"
    by simp
  from T have "fst (getStatConfigJSON (registerInput 2 example_registered)) =
      config_text (map fst (m_inputStats example_registered))"
    by blast
  then have d: "fst (getStatConfigJSON (registerInput 2 example_registered)) =
      ''{ \"config\" : [\<newline> \"eth0\" ,  \"eth1\" ] }\<newline>''"
    by (simp add: example_registered_def config_text_def)
  from a' have e: "map_of (m_inputStats (registerInput 2 example_registered)) ''eth0'' = Some 0"
    by simp
  from h1 h2 a' b' c d e show ?thesis by blast
qed

text \<open>
  C8. Starting from the empty registry, after any history of register and
  unregister calls the id report lists exactly the ids the history leaves
  registered, each once, in ascending order, and producing the report leaves
  the state as it is.
\<close>

theorem id_snapshot_exact:
  assumes "m_inputStats st = []"
  shows "fst (getStatConfigJSON (run_calls cs st)) =
           config_text (sorted_list_of_set (registered_ids (heap st) cs {})) \<and>
         map fst (m_inputStats (run_calls cs st)) =
           sorted_list_of_set (registered_ids (heap st) cs {}) \<and>
         set (map fst (m_inputStats (run_calls cs st))) = registered_ids (heap st) cs {} \<and>
         distinct (map fst (m_inputStats (run_calls cs st))) \<and>
         sorted (map fst (m_inputStats (run_calls cs st))) \<and>
         snd (getStatConfigJSON (run_calls cs st)) = run_calls cs st"
proof -
  from assms have inv0: "map_inv (m_inputStats st)" by (simp add: map_inv_def)
  let ?m = "m_inputStats (run_calls cs st)"
  from run_calls_inv[OF inv0, of cs] assms
  have inv: "map_inv ?m" and keys: "set (map fst ?m) = registered_ids (heap st) cs {}"
    by simp_all
  from map_inv_sorted_distinct[OF inv]
  have sd: "sorted (map fst ?m)" "distinct (map fst ?m)"
    by simp_all
  then have "sorted_list_of_set (set (map fst ?m)) = map fst ?m"
    by (rule sorted_list_of_set.idem_if_sorted_distinct)
  with keys have ids: "map fst ?m = sorted_list_of_set (registered_ids (heap st) cs {})"
    by simp
  have out: "fst (getStatConfigJSON (run_calls cs st)) = config_text (map fst ?m)"
    and same: "snd (getStatConfigJSON (run_calls cs st)) = run_calls cs st"
    by (simp_all add: getStatConfigJSON_text)
  from out ids have "fst (getStatConfigJSON (run_calls cs st)) =
      config_text (sorted_list_of_set (registered_ids (heap st) cs {}))"
    by simp
  with ids keys sd same show ?thesis by blast
qed

theorem id_snapshot_exact_witness:
  \<open>m_inputStats example_state = [] \<and>
   fst (getStatConfigJSON (run_calls example_calls example_state)) =
     ''{ "config" : [\<newline> "eth0" ] }\<newline>'' \<and>
   map fst (m_inputStats (run_calls example_calls example_state)) = [''eth0'']\<close>
proof -
  have h: "m_inputStats example_state = []" by (simp add: example_state_def)
  note T = id_snapshot_exact[OF h, of example_calls]
  have "registered_ids (heap example_state) example_calls {} = {''eth0''}"
    by (auto simp add: example_calls_def example_state_def example_heap_def example_stat_def)
  then have s: "sorted_list_of_set (registered_ids (heap example_state) example_calls {}) = [''eth0'']"
    by simp
  have t: \<open>config_text [''eth0''] = ''{ "config" : [\<newline> "eth0" ] }\<newline>''\<close>
    by (simp add: config_text_def)
  from T have a: "fst (getStatConfigJSON (run_calls example_calls example_state)) =
      config_text (sorted_list_of_set (registered_ids (heap example_state) example_calls {}))"
    by blast
  from T have b: "map fst (m_inputStats (run_calls example_calls example_state)) =
      sorted_list_of_set (registered_ids (heap example_state) example_calls {})"
    by blast
  from h a b s t show ?thesis by simp
qed

end
